theory Spec2Isabelle
  imports Complex_Main
begin

section \<open>JavaScript values\<close>

text \<open>
  The relay (the server half of \<^verbatim>\<open>src/App.tsx\<close>, from the \<^verbatim>\<open>ws\<close> import on) reads
  the result of \<^verbatim>\<open>JSON.parse\<close> dynamically. A parsed value is a \<open>js\<close>; \<open>JUndefined\<close>
  is never produced by the parser, it is what reading an absent property gives.
  \<open>JNum\<close> carries the value of the parsed number; the relay only tests numbers for
  truthiness and copies them. \<open>JObj\<close> is the parsed object as an association list.
\<close>

datatype js =
    JUndefined
  | JNull
  | JBool bool
  | JNum rat
  | JStr string
  | JArr "js list"
  | JObj "(string \<times> js) list"

text \<open>
  \<open>TypeError\<close> is the exception of a property read on \<^verbatim>\<open>null\<close> or \<^verbatim>\<open>undefined\<close>.
  \<open>Unfinished\<close> is not an exception: it says that the supply of random draws handed to
  the \<^verbatim>\<open>do ... while\<close> loop of \<^verbatim>\<open>createUniqueRoomId\<close> ended with the loop still running.
\<close>

datatype failure = TypeError | Unfinished

text \<open>JavaScript truthiness, the meaning of \<^verbatim>\<open>!v\<close> and of \<^verbatim>\<open>v || {}\<close>.\<close>

fun truthy :: "js \<Rightarrow> bool" where
  "truthy JUndefined = False"
| "truthy JNull = False"
| "truthy (JBool b) = b"
| "truthy (JNum n) = (n \<noteq> 0)"
| "truthy (JStr s) = (s \<noteq> [])"
| "truthy (JArr xs) = True"
| "truthy (JObj kvs) = True"

text \<open>
  \<^verbatim>\<open>v.k\<close> and the destructuring \<^verbatim>\<open>const { k } = v\<close>, for the keys the relay reads
  (\<^verbatim>\<open>type\<close>, \<^verbatim>\<open>payload\<close>, \<^verbatim>\<open>room\<close>, \<^verbatim>\<open>typing\<close>, \<^verbatim>\<open>id\<close>, \<^verbatim>\<open>text\<close>): a TypeError on
  \<^verbatim>\<open>null\<close> and \<^verbatim>\<open>undefined\<close>, the stored value on an object, \<^verbatim>\<open>undefined\<close> on every
  other value (no prototype has one of these keys).
\<close>

fun get_prop :: "js \<Rightarrow> string \<Rightarrow> failure + js" where
  "get_prop JUndefined k = Inl TypeError"
| "get_prop JNull k = Inl TypeError"
| "get_prop (JObj kvs) k = Inr (case map_of kvs k of None \<Rightarrow> JUndefined | Some v \<Rightarrow> v)"
| "get_prop v k = Inr JUndefined"

text \<open>\<^verbatim>\<open>v || {}\<close>\<close>

definition or_empty :: "js \<Rightarrow> js" where
  "or_empty v = (if truthy v then v else JObj [])"

text \<open>Sequencing of two steps of which the first may throw.\<close>

definition and_then :: "failure + 'a \<Rightarrow> ('a \<Rightarrow> failure + 'b) \<Rightarrow> failure + 'b" where
  "and_then m f = (case m of Inl e \<Rightarrow> Inl e | Inr a \<Rightarrow> f a)"

section \<open>Data structures\<close>

text \<open>
  A \<^verbatim>\<open>WebSocket\<close> is an opaque handle. A JavaScript \<^verbatim>\<open>Set\<close> iterates in insertion order,
  so a room's member set is a list without duplicates; a \<^verbatim>\<open>Map\<close> is a partial function.
  \<^verbatim>\<open>readyState\<close> belongs to the transport library: each handler run reads it, so the
  handlers take it as an argument.
\<close>

type_synonym WebSocket = nat

datatype readyState = CONNECTING | OPEN | CLOSING | CLOSED

record User =
  socket :: WebSocket
  room :: string

record state =
  users :: "WebSocket \<rightharpoonup> User"
  rooms :: "string \<rightharpoonup> WebSocket list"

definition MAX_USERS_PER_ROOM :: nat where
  "MAX_USERS_PER_ROOM = 2"

definition init_state :: state where
  "init_state = \<lparr>users = Map.empty, rooms = Map.empty\<rparr>"

text \<open>\<^verbatim>\<open>Set.prototype.add\<close> and \<^verbatim>\<open>Set.prototype.delete\<close>\<close>

definition set_add :: "WebSocket \<Rightarrow> WebSocket list \<Rightarrow> WebSocket list" where
  "set_add x xs = (if x \<in> set xs then xs else xs @ [x])"

definition set_delete :: "WebSocket \<Rightarrow> WebSocket list \<Rightarrow> WebSocket list" where
  "set_delete x xs = removeAll x xs"

text \<open>
  What is handed to \<^verbatim>\<open>send\<close>: the receiving socket and the object given to
  \<^verbatim>\<open>JSON.stringify\<close>, \<^verbatim>\<open>{ type, payload }\<close>.
\<close>

type_synonym send = "WebSocket \<times> js"

definition envelope :: "string \<Rightarrow> (string \<times> js) list \<Rightarrow> js" where
  "envelope ty payload = JObj [(''type'', JStr ty), (''payload'', JObj payload)]"

section \<open>Room id generator\<close>

text \<open>\<^verbatim>\<open>Number.prototype.toString\<close> on an integer: decimal digits, a sign when negative.\<close>

definition digit_char :: "nat \<Rightarrow> char" where
  "digit_char d = ''0123456789'' ! d"

fun decimal :: "nat \<Rightarrow> string" where
  "decimal n = (if n < 10 then [digit_char n] else decimal (n div 10) @ [digit_char (n mod 10)])"

declare decimal.simps [simp del]

definition toString :: "int \<Rightarrow> string" where
  "toString i = (if i < 0 then CHR ''-'' # decimal (nat (- i)) else decimal (nat i))"

text \<open>
  \<^verbatim>\<open>Math.floor(1000 + Math.random() * 9000).toString()\<close>. The double arithmetic under
  \<^verbatim>\<open>Math.floor\<close> is not modelled: the argument \<open>floored\<close> is the integer that
  \<^verbatim>\<open>Math.floor(1000 + Math.random() * 9000)\<close> returned, whatever the rounding made it.
\<close>

definition generateRoomId :: "int \<Rightarrow> string" where
  "generateRoomId floored = toString floored"

text \<open>
  \<^verbatim>\<open>do { id = generateRoomId(); } while (rooms.has(id));\<close> over the successive draws,
  one for each call of \<^verbatim>\<open>generateRoomId\<close>. \<open>None\<close>: the draws given are used up and the
  loop has not left.
\<close>

fun createUniqueRoomId :: "(string \<rightharpoonup> WebSocket list) \<Rightarrow> int list \<Rightarrow> string option" where
  "createUniqueRoomId rms [] = None"
| "createUniqueRoomId rms (floored # draws) =
     (let id = generateRoomId floored
      in if rms id \<noteq> None then createUniqueRoomId rms draws else Some id)"

section \<open>User count broadcast\<close>

definition broadcastUserCount :: "state \<Rightarrow> (WebSocket \<Rightarrow> readyState) \<Rightarrow> string \<Rightarrow> send list" where
  "broadcastUserCount st ready roomId =
     (case rooms st roomId of
        None \<Rightarrow> []
      | Some roomSockets \<Rightarrow>
          map (\<lambda>client. (client, envelope ''user-count''
                 [(''count'', JNum (of_nat (length roomSockets))),
                  (''max'', JNum (of_nat MAX_USERS_PER_ROOM))]))
              (filter (\<lambda>client. ready client = OPEN) roomSockets))"

section \<open>Connection handlers\<close>

text \<open>The \<^verbatim>\<open>create-room\<close> branch of the message handler.\<close>

definition create_room ::
  "state \<Rightarrow> (WebSocket \<Rightarrow> readyState) \<Rightarrow> int list \<Rightarrow> WebSocket \<Rightarrow> failure + state \<times> send list" where
  "create_room st ready draws ws =
     (if users st ws \<noteq> None then Inr (st, [])
      else case createUniqueRoomId (rooms st) draws of
             None \<Rightarrow> Inl Unfinished
           | Some roomId \<Rightarrow>
               let st' = st\<lparr>users := (users st)(ws \<mapsto> \<lparr>socket = ws, room = roomId\<rparr>),
                            rooms := (rooms st)(roomId \<mapsto> [ws])\<rparr>
               in Inr (st', (ws, envelope ''room-created'' [(''room'', JStr roomId)])
                            # broadcastUserCount st' ready roomId))"

text \<open>
  The \<^verbatim>\<open>join-room\<close> branch, from the destructured \<^verbatim>\<open>room\<close> on. Every key of \<^verbatim>\<open>rooms\<close>
  is a string, so \<^verbatim>\<open>rooms.has(room)\<close> holds only of a string that is a key. The test
  \<^verbatim>\<open>!room || !rooms.has(room)\<close> and the read \<^verbatim>\<open>rooms.get(room)!\<close> after it are written as
  one lookup: \<open>None\<close> where the test holds, the key and its member set where it does not.
\<close>

definition join_room ::
  "state \<Rightarrow> (WebSocket \<Rightarrow> readyState) \<Rightarrow> WebSocket \<Rightarrow> js \<Rightarrow> state \<times> send list" where
  "join_room st ready ws r =
     (case (if truthy r then (case r of JStr k \<Rightarrow> map_option (Pair k) (rooms st k) | _ \<Rightarrow> None)
            else None) of
        None \<Rightarrow> (st, [(ws, envelope ''error'' [(''message'', JStr ''Room does not exist'')])])
      | Some (k, roomSockets) \<Rightarrow>
          if length roomSockets \<ge> MAX_USERS_PER_ROOM
          then (st, [(ws, envelope ''error'' [(''message'', JStr ''Room is full'')])])
          else
            let st' = st\<lparr>users := (users st)(ws \<mapsto> \<lparr>socket = ws, room = k\<rparr>),
                         rooms := (rooms st)(k \<mapsto> set_add ws roomSockets)\<rparr>
            in (st', (ws, envelope ''joined'' [(''room'', JStr k)])
                     # broadcastUserCount st' ready k))"

text \<open>
  The room-scoped branches, entered once \<^verbatim>\<open>users.get(socket)\<close> and
  \<^verbatim>\<open>rooms.get(user.room)\<close> have both answered. None of them changes \<^verbatim>\<open>users\<close> or
  \<^verbatim>\<open>rooms\<close>, so they return the envelopes sent only.
\<close>

definition room_event ::
  "(WebSocket \<Rightarrow> readyState) \<Rightarrow> WebSocket \<Rightarrow> WebSocket list \<Rightarrow> js \<Rightarrow> js \<Rightarrow> failure + send list" where
  "room_event ready ws roomSockets ty message =
     (if ty = JStr ''typing'' then
        and_then (get_prop message ''payload'') (\<lambda>p.
        and_then (get_prop p ''typing'') (\<lambda>t.
          Inr (map (\<lambda>client. (client, envelope ''typing'' [(''typing'', t)]))
                   (filter (\<lambda>client. client \<noteq> ws \<and> ready client = OPEN) roomSockets))))
      else if ty = JStr ''message'' then
        and_then (get_prop message ''payload'') (\<lambda>p.
        and_then (get_prop (or_empty p) ''id'') (\<lambda>id.
        and_then (get_prop (or_empty p) ''text'') (\<lambda>text.
          if \<not> truthy id \<or> \<not> truthy text then Inr []
          else Inr (map (\<lambda>client. (client, envelope ''message'' [(''id'', id), (''message'', text)]))
                        (filter (\<lambda>client. client \<noteq> ws \<and> ready client = OPEN) roomSockets)
                    @ [(ws, envelope ''delivered'' [(''id'', id)])]))))
      else if ty = JStr ''seen'' then
        and_then (get_prop message ''payload'') (\<lambda>p.
        and_then (get_prop (or_empty p) ''id'') (\<lambda>id.
          if \<not> truthy id then Inr []
          else Inr (map (\<lambda>client. (client, envelope ''seen'' [(''id'', id)]))
                        (filter (\<lambda>client. ready client = OPEN) roomSockets))))
      else Inr [])"

text \<open>
  \<^verbatim>\<open>socket.on("message", ...)\<close>. \<open>data\<close> is the outcome of
  \<^verbatim>\<open>JSON.parse(data.toString())\<close>: \<open>None\<close> when it threw. The result is the state after
  the handler and the envelopes sent, in order, or the failure. Every throw of the handler
  comes before its first write and its first send. A \<^verbatim>\<open>socket.send\<close> to the sender is
  listed as it is issued; the broadcasts test \<^verbatim>\<open>readyState\<close> first, as the source does.
\<close>

definition on_message ::
  "state \<Rightarrow> (WebSocket \<Rightarrow> readyState) \<Rightarrow> int list \<Rightarrow> WebSocket \<Rightarrow> js option
     \<Rightarrow> failure + state \<times> send list" where
  "on_message st ready draws ws data =
     (case data of
        None \<Rightarrow> Inr (st, [(ws, envelope ''error'' [(''message'', JStr ''Invalid JSON format'')])])
      | Some message \<Rightarrow>
          and_then (get_prop message ''type'') (\<lambda>ty.
            if ty = JStr ''create-room'' then create_room st ready draws ws
            else if ty = JStr ''join-room'' then
              and_then (get_prop message ''payload'') (\<lambda>p.
              and_then (get_prop (or_empty p) ''room'') (\<lambda>r.
                Inr (join_room st ready ws r)))
            else
              (case users st ws of
                 None \<Rightarrow> Inr (st, [])
               | Some user \<Rightarrow>
                   (case rooms st (room user) of
                      None \<Rightarrow> Inr (st, [])
                    | Some roomSockets \<Rightarrow>
                        and_then (room_event ready ws roomSockets ty message) (\<lambda>out.
                          Inr (st, out))))))"

text \<open>\<^verbatim>\<open>socket.on("close", ...)\<close>\<close>

definition on_close :: "state \<Rightarrow> (WebSocket \<Rightarrow> readyState) \<Rightarrow> WebSocket \<Rightarrow> state \<times> send list" where
  "on_close st ready ws =
     (case users st ws of
        None \<Rightarrow> (st, [])
      | Some user \<Rightarrow>
          let (st', out) =
                (case rooms st (room user) of
                   None \<Rightarrow> (st, broadcastUserCount st ready (room user))
                 | Some roomSockets \<Rightarrow>
                     let st1 = st\<lparr>rooms := (rooms st)(room user \<mapsto> set_delete ws roomSockets)\<rparr>
                     in if length (set_delete ws roomSockets) = 0
                        then (st1\<lparr>rooms := (rooms st1)(room user := None)\<rparr>, [])
                        else (st1, broadcastUserCount st1 ready (room user)))
          in (st'\<lparr>users := (users st')(ws := None)\<rparr>, out))"

section \<open>Runs of the server\<close>

text \<open>
  An event is one handler run, with what the handler reads from outside: the ready
  states at that moment and, for a message, the draws \<^verbatim>\<open>generateRoomId\<close> would make.
  \<open>run\<close> starts from a state and stops at the first failure.
\<close>

datatype event =
    Message "WebSocket \<Rightarrow> readyState" "int list" WebSocket "js option"
  | Close "WebSocket \<Rightarrow> readyState" WebSocket

fun step :: "state \<Rightarrow> event \<Rightarrow> failure + state \<times> send list" where
  "step st (Message ready draws ws data) = on_message st ready draws ws data"
| "step st (Close ready ws) = Inr (on_close st ready ws)"

fun run :: "state \<Rightarrow> event list \<Rightarrow> failure + state" where
  "run st [] = Inr st"
| "run st (e # es) = (case step st e of Inl f \<Rightarrow> Inl f | Inr (st', out) \<Rightarrow> run st' es)"

section \<open>Invariant of the room table and the registry\<close>

text \<open>
  Every room of the table has a non-empty identifier and between one and
  \<open>MAX_USERS_PER_ROOM\<close> members, listed once each; every registered connection is a
  member of the room the registry records for it, and that room is in the table.
\<close>

definition room_table_ok :: "state \<Rightarrow> bool" where
  "room_table_ok st \<longleftrightarrow>
     (\<forall>k ms. rooms st k = Some ms \<longrightarrow>
        k \<noteq> [] \<and> distinct ms \<and> 1 \<le> length ms \<and> length ms \<le> MAX_USERS_PER_ROOM) \<and>
     (\<forall>ws u. users st ws = Some u \<longrightarrow> (\<exists>ms. rooms st (room u) = Some ms \<and> ws \<in> set ms))"

section \<open>Scenarios\<close>

text \<open>
  Concrete inputs and states for the examples: requests as the client writes them,
  ready states, and the states the server is in after the runs given further down.
\<close>

definition all_open :: "WebSocket \<Rightarrow> readyState" where
  "all_open client = OPEN"

definition first_closing :: "WebSocket \<Rightarrow> readyState" where
  "first_closing = all_open(1 := CLOSING)"

definition create_request :: js where
  "create_request = JObj [(''type'', JStr ''create-room'')]"

definition join_request :: "string \<Rightarrow> js" where
  "join_request k = envelope ''join-room'' [(''room'', JStr k)]"

definition one_room :: state where
  "one_room = \<lparr>users = [1 \<mapsto> \<lparr>socket = 1, room = ''1000''\<rparr>],
               rooms = [''1000'' \<mapsto> [1]]\<rparr>"

definition pair_room :: state where
  "pair_room = \<lparr>users = [1 \<mapsto> \<lparr>socket = 1, room = ''1000''\<rparr>,
                         2 \<mapsto> \<lparr>socket = 2, room = ''1000''\<rparr>],
                rooms = [''1000'' \<mapsto> [1, 2]]\<rparr>"

definition two_rooms :: state where
  "two_rooms = \<lparr>users = [1 \<mapsto> \<lparr>socket = 1, room = ''1000''\<rparr>,
                         2 \<mapsto> \<lparr>socket = 2, room = ''1001''\<rparr>],
                rooms = [''1000'' \<mapsto> [1], ''1001'' \<mapsto> [2]]\<rparr>"

section \<open>The invariant holds in every run\<close>

lemma room_table_ok_rooms:
  "room_table_ok st \<Longrightarrow> rooms st k = Some ms \<Longrightarrow>
     k \<noteq> [] \<and> distinct ms \<and> 1 \<le> length ms \<and> length ms \<le> MAX_USERS_PER_ROOM"
  unfolding room_table_ok_def by blast

lemma room_table_ok_users:
  "room_table_ok st \<Longrightarrow> users st c = Some u \<Longrightarrow> \<exists>ms. rooms st (room u) = Some ms \<and> c \<in> set ms"
  unfolding room_table_ok_def by blast

lemma room_table_okI:
  assumes r: "\<And>k ms. rooms st k = Some ms \<Longrightarrow>
                k \<noteq> [] \<and> distinct ms \<and> 1 \<le> length ms \<and> length ms \<le> MAX_USERS_PER_ROOM"
    and u: "\<And>c u. users st c = Some u \<Longrightarrow> \<exists>ms. rooms st (room u) = Some ms \<and> c \<in> set ms"
  shows "room_table_ok st"
  unfolding room_table_ok_def
proof (rule conjI)
  show "\<forall>k ms. rooms st k = Some ms \<longrightarrow>
          k \<noteq> [] \<and> distinct ms \<and> 1 \<le> length ms \<and> length ms \<le> MAX_USERS_PER_ROOM"
    using r by (intro allI impI)
  show "\<forall>ws u. users st ws = Some u \<longrightarrow> (\<exists>ms. rooms st (room u) = Some ms \<and> ws \<in> set ms)"
    using u by (intro allI impI)
qed

lemma decimal_nonempty: "decimal n \<noteq> []"
  by (subst decimal.simps) simp

lemma generateRoomId_nonempty: "generateRoomId floored \<noteq> []"
  by (simp add: generateRoomId_def toString_def decimal_nonempty)

lemma createUniqueRoomId_fresh:
  "createUniqueRoomId rms draws = Some k \<Longrightarrow> rms k = None \<and> k \<noteq> [] \<and> k \<in> generateRoomId ` set draws"
  by (induction draws) (auto simp: Let_def generateRoomId_nonempty split: if_splits)

lemma createUniqueRoomId_returns:
  "\<exists>d \<in> set draws. rms (generateRoomId d) = None \<Longrightarrow> \<exists>k. createUniqueRoomId rms draws = Some k"
  by (induction draws) (auto simp: Let_def)

lemma room_table_ok_init: "room_table_ok init_state"
  by (simp add: room_table_ok_def init_state_def)

lemma room_table_ok_create:
  assumes "room_table_ok st" and "create_room st ready draws ws = Inr (st', out)"
  shows "room_table_ok st'"
proof (cases "users st ws")
  case (Some u)
  with assms show ?thesis by (simp add: create_room_def)
next
  case None
  with assms(2) obtain k where k: "createUniqueRoomId (rooms st) draws = Some k"
    and st': "st' = st\<lparr>users := (users st)(ws \<mapsto> \<lparr>socket = ws, room = k\<rparr>),
                        rooms := (rooms st)(k \<mapsto> [ws])\<rparr>"
    by (auto simp: create_room_def Let_def split: option.splits)
  from createUniqueRoomId_fresh[OF k] have fresh: "rooms st k = None" and ne: "k \<noteq> []" by auto
  have rooms_ok: "k' \<noteq> [] \<and> distinct ms' \<and> 1 \<le> length ms' \<and> length ms' \<le> MAX_USERS_PER_ROOM"
    if "rooms st' k' = Some ms'" for k' ms'
  proof (cases "k' = k")
    case True
    with that st' ne show ?thesis by (auto simp: MAX_USERS_PER_ROOM_def)
  next
    case False
    with that st' have "rooms st k' = Some ms'" by simp
    with assms(1) show ?thesis by (rule room_table_ok_rooms)
  qed
  have users_ok: "\<exists>ms'. rooms st' (room u) = Some ms' \<and> c \<in> set ms'"
    if "users st' c = Some u" for c u
  proof (cases "c = ws")
    case True
    with that st' show ?thesis by auto
  next
    case False
    with that st' have "users st c = Some u" by simp
    with assms(1) obtain m where m: "rooms st (room u) = Some m" "c \<in> set m"
      using room_table_ok_users by blast
    with fresh have "room u \<noteq> k" by auto
    with m st' show ?thesis by simp
  qed
  show ?thesis using rooms_ok users_ok by (rule room_table_okI)
qed

lemma set_add_props:
  "distinct ms \<Longrightarrow> distinct (set_add ws ms)"
  "set (set_add ws ms) = insert ws (set ms)"
  "length (set_add ws ms) \<le> Suc (length ms)"
  "length ms \<le> length (set_add ws ms)"
  by (auto simp: set_add_def)

lemma room_table_ok_join:
  assumes "room_table_ok st" and "join_room st ready ws r = (st', out)"
  shows "room_table_ok st'"
proof (cases "st' = st")
  case True
  with assms show ?thesis by simp
next
  case False
  with assms(2) obtain k ms where k: "rooms st k = Some ms" and len: "length ms < MAX_USERS_PER_ROOM"
    and st': "st' = st\<lparr>users := (users st)(ws \<mapsto> \<lparr>socket = ws, room = k\<rparr>),
                        rooms := (rooms st)(k \<mapsto> set_add ws ms)\<rparr>"
    by (auto simp: join_room_def Let_def split: option.splits if_splits js.splits)
  from room_table_ok_rooms[OF assms(1) k] have ok: "k \<noteq> []" "distinct ms" "1 \<le> length ms"
    by simp_all
  have rooms_ok: "k' \<noteq> [] \<and> distinct ms' \<and> 1 \<le> length ms' \<and> length ms' \<le> MAX_USERS_PER_ROOM"
    if "rooms st' k' = Some ms'" for k' ms'
  proof (cases "k' = k")
    case True
    with that st' have "ms' = set_add ws ms" by simp
    with ok len True set_add_props(3)[of ws ms] set_add_props(4)[of ms ws] show ?thesis
      by (simp add: set_add_props(1))
  next
    case False
    with that st' have "rooms st k' = Some ms'" by simp
    with assms(1) show ?thesis by (rule room_table_ok_rooms)
  qed
  have users_ok: "\<exists>ms'. rooms st' (room u) = Some ms' \<and> c \<in> set ms'"
    if "users st' c = Some u" for c u
  proof (cases "c = ws")
    case True
    with that st' show ?thesis by (auto simp: set_add_props(2))
  next
    case False
    with that st' have "users st c = Some u" by simp
    with assms(1) obtain m where m: "rooms st (room u) = Some m" "c \<in> set m"
      using room_table_ok_users by blast
    show ?thesis
    proof (cases "room u = k")
      case True
      with m k st' show ?thesis by (simp add: set_add_props(2))
    next
      case False
      with m st' show ?thesis by simp
    qed
  qed
  show ?thesis using rooms_ok users_ok by (rule room_table_okI)
qed


lemma on_message_state:
  assumes "on_message st ready draws ws data = Inr (st', out)"
  shows "create_room st ready draws ws = Inr (st', out) \<or>
         (\<exists>r. join_room st ready ws r = (st', out)) \<or> st' = st"
proof (cases data)
  case None
  with assms show ?thesis by (simp add: on_message_def)
next
  case (Some message)
  show ?thesis
  proof (cases "get_prop message ''type''")
    case (Inl e)
    with assms Some show ?thesis by (simp add: on_message_def and_then_def)
  next
    case (Inr ty)
    consider (create) "ty = JStr ''create-room''" | (join) "ty = JStr ''join-room''"
      | (other) "ty \<noteq> JStr ''create-room''" "ty \<noteq> JStr ''join-room''" by blast
    then show ?thesis
    proof cases
      case create
      with assms Some Inr show ?thesis by (simp add: on_message_def and_then_def)
    next
      case join
      with assms Some Inr show ?thesis
        by (auto simp: on_message_def and_then_def split: sum.splits)
    next
      case other
      with assms Some Inr have "st' = st"
        by (auto simp: on_message_def and_then_def split: option.splits sum.splits)
      then show ?thesis by simp
    qed
  qed
qed

lemma room_table_ok_on_message:
  assumes "room_table_ok st" and "on_message st ready draws ws data = Inr (st', out)"
  shows "room_table_ok st'"
  using on_message_state[OF assms(2)] assms(1) room_table_ok_create room_table_ok_join
  by blast

lemma room_table_ok_on_close:
  assumes "room_table_ok st" and "on_close st ready ws = (st', out)"
  shows "room_table_ok st'"
proof (cases "users st ws")
  case None
  with assms show ?thesis by (simp add: on_close_def)
next
  case (Some u)
  with assms(1) obtain ms where ms: "rooms st (room u) = Some ms" "ws \<in> set ms"
    using room_table_ok_users by blast
  from room_table_ok_rooms[OF assms(1) ms(1)]
  have ok: "room u \<noteq> []" "distinct ms" "length ms \<le> MAX_USERS_PER_ROOM"
    by simp_all
  let ?ms' = "set_delete ws ms"
  have st': "st' = st\<lparr>rooms := (rooms st)(room u := (if ?ms' = [] then None else Some ?ms')),
                      users := (users st)(ws := None)\<rparr>"
    using assms(2) Some ms by (auto simp: on_close_def Let_def)
  have del: "set ?ms' = set ms - {ws}" "distinct ?ms'" "length ?ms' \<le> length ms"
    using ok by (auto simp: set_delete_def distinct_removeAll length_removeAll_less_eq)
  have rooms_ok: "k' \<noteq> [] \<and> distinct ms' \<and> 1 \<le> length ms' \<and> length ms' \<le> MAX_USERS_PER_ROOM"
    if "rooms st' k' = Some ms'" for k' ms'
  proof (cases "k' = room u")
    case True
    with that st' have eq: "ms' = ?ms'" and ne: "?ms' \<noteq> []" by (auto split: if_splits)
    from ne have "1 \<le> length ?ms'" by (simp add: Suc_le_eq)
    moreover from del(3) ok(3) have "length ?ms' \<le> MAX_USERS_PER_ROOM" by (rule order_trans)
    ultimately show ?thesis unfolding eq True using del(2) ok(1) by simp
  next
    case False
    with that st' have "rooms st k' = Some ms'" by simp
    with assms(1) show ?thesis by (rule room_table_ok_rooms)
  qed
  have users_ok: "\<exists>ms'. rooms st' (room v) = Some ms' \<and> c \<in> set ms'"
    if "users st' c = Some v" for c v
  proof -
    from that st' have c: "c \<noteq> ws" "users st c = Some v" by (auto split: if_splits)
    with assms(1) obtain m where m: "rooms st (room v) = Some m" "c \<in> set m"
      using room_table_ok_users by blast
    show ?thesis
    proof (cases "room v = room u")
      case True
      with m ms have "c \<in> set ?ms'" using del c by auto
      then have "?ms' \<noteq> []" by auto
      with True st' \<open>c \<in> set ?ms'\<close> show ?thesis by simp
    next
      case False
      with m st' show ?thesis by simp
    qed
  qed
  show ?thesis using rooms_ok users_ok by (rule room_table_okI)
qed

lemma room_table_ok_run:
  "room_table_ok st \<Longrightarrow> run st es = Inr st' \<Longrightarrow> room_table_ok st'"
proof (induction es arbitrary: st)
  case Nil
  then show ?case by simp
next
  case (Cons e es)
  from Cons.prems(2) obtain st1 out where s: "step st e = Inr (st1, out)" and r: "run st1 es = Inr st'"
    by (auto split: sum.splits)
  have "room_table_ok st1"
  proof (cases e)
    case (Message ready draws ws data)
    with s Cons.prems(1) show ?thesis by (auto intro: room_table_ok_on_message)
  next
    case (Close ready ws)
    with s Cons.prems(1) show ?thesis by (auto intro: room_table_ok_on_close)
  qed
  then show ?case using r by (rule Cons.IH)
qed

lemmas handler_defs =
  on_message_def and_then_def create_room_def join_room_def room_event_def on_close_def
  broadcastUserCount_def or_empty_def envelope_def set_add_def set_delete_def
  MAX_USERS_PER_ROOM_def Let_def

lemmas scenario_defs =
  all_open_def first_closing_def create_request_def join_request_def
  one_room_def pair_room_def two_rooms_def init_state_def
  generateRoomId_def toString_def digit_char_def decimal.simps

lemma run_one_room: "run init_state [Message all_open [1000] 1 (Some create_request)] = Inr one_room"
  by (simp add: handler_defs scenario_defs)

lemma run_pair_room:
  "run init_state [Message all_open [1000] 1 (Some create_request),
                   Message all_open [] 2 (Some (join_request ''1000''))] = Inr pair_room"
  by (simp add: handler_defs scenario_defs)

lemma run_two_rooms:
  "run init_state [Message all_open [1000] 1 (Some create_request),
                   Message all_open [1001] 2 (Some create_request)] = Inr two_rooms"
  by (simp add: handler_defs scenario_defs)

section \<open>What each branch does\<close>

lemma join_dispatch:
  assumes "get_prop message ''type'' = Inr (JStr ''join-room'')"
    and "get_prop message ''payload'' = Inr p"
    and "get_prop (or_empty p) ''room'' = Inr r"
  shows "on_message st ready draws ws (Some message) = Inr (join_room st ready ws r)"
  using assms by (simp add: on_message_def and_then_def)

lemma join_room_missing:
  assumes "\<forall>k. r = JStr k \<longrightarrow> rooms st k = None"
  shows "join_room st ready ws r =
           (st, [(ws, envelope ''error'' [(''message'', JStr ''Room does not exist'')])])"
  using assms by (cases r) (simp_all add: join_room_def)

lemma join_room_full:
  assumes "rooms st k = Some members" and "k \<noteq> []" and "MAX_USERS_PER_ROOM \<le> length members"
  shows "join_room st ready ws (JStr k) =
           (st, [(ws, envelope ''error'' [(''message'', JStr ''Room is full'')])])"
  using assms by (simp add: join_room_def)

lemma join_room_joins:
  assumes "rooms st k = Some members" and "k \<noteq> []" and "length members < MAX_USERS_PER_ROOM"
  shows "join_room st ready ws (JStr k) =
           (st\<lparr>users := (users st)(ws \<mapsto> \<lparr>socket = ws, room = k\<rparr>),
               rooms := (rooms st)(k \<mapsto> set_add ws members)\<rparr>,
            (ws, envelope ''joined'' [(''room'', JStr k)])
            # broadcastUserCount
                (st\<lparr>users := (users st)(ws \<mapsto> \<lparr>socket = ws, room = k\<rparr>),
                    rooms := (rooms st)(k \<mapsto> set_add ws members)\<rparr>) ready k)"
  using assms by (simp add: join_room_def Let_def)

lemma create_room_new:
  assumes "users st ws = None" and "create_room st ready draws ws = Inr (st', out)"
  shows "\<exists>k. createUniqueRoomId (rooms st) draws = Some k \<and> rooms st k = None \<and>
             users st' = (users st)(ws \<mapsto> \<lparr>socket = ws, room = k\<rparr>) \<and>
             rooms st' = (rooms st)(k \<mapsto> [ws]) \<and>
             out = (ws, envelope ''room-created'' [(''room'', JStr k)])
                   # broadcastUserCount st' ready k"
proof -
  from assms obtain k where k: "createUniqueRoomId (rooms st) draws = Some k"
    and st': "st' = st\<lparr>users := (users st)(ws \<mapsto> \<lparr>socket = ws, room = k\<rparr>),
                        rooms := (rooms st)(k \<mapsto> [ws])\<rparr>"
    and out: "out = (ws, envelope ''room-created'' [(''room'', JStr k)])
                    # broadcastUserCount st' ready k"
    by (auto simp: create_room_def Let_def split: option.splits)
  from createUniqueRoomId_fresh[OF k] have "rooms st k = None" by simp
  with k st' out show ?thesis by simp
qed

lemma on_close_room:
  assumes "users st ws = Some user" and "rooms st (room user) = Some members"
  shows "rooms (fst (on_close st ready ws)) (room user) =
           (if set_delete ws members = [] then None else Some (set_delete ws members))"
  using assms by (simp add: on_close_def Let_def)

lemma room_scoped_dispatch:
  assumes "users st ws = Some user" and "rooms st (room user) = Some members"
    and "get_prop message ''type'' = Inr ty"
    and "ty \<noteq> JStr ''create-room''" and "ty \<noteq> JStr ''join-room''"
  shows "on_message st ready draws ws (Some message) =
           and_then (room_event ready ws members ty message) (\<lambda>out. Inr (st, out))"
  using assms by (simp add: on_message_def and_then_def)

section \<open>The claims\<close>

subsection \<open>C1: one room per connection\<close>

text \<open>
  Claim C1 says that a \<^verbatim>\<open>join-room\<close> from a connection that already has a room is dropped,
  and that a connection is a member of one room at most. The \<^verbatim>\<open>create-room\<close> branch starts
  with \<^verbatim>\<open>if (users.has(socket)) return\<close>; the \<^verbatim>\<open>join-room\<close> branch has no such test.
  Connection 1 creates room 1000, connection 2 creates room 1001, connection 1 asks to join
  1001: it is added to 1001, its registry entry is rewritten, it is answered, and it is
  still a member of 1000.
\<close>

theorem join_from_assigned_connection:
  "run init_state [Message all_open [1000] 1 (Some create_request),
                   Message all_open [1001] 2 (Some create_request)] = Inr two_rooms \<and>
   users two_rooms 1 = Some \<lparr>socket = 1, room = ''1000''\<rparr> \<and>
   rooms two_rooms ''1000'' = Some [1] \<and>
   on_message two_rooms all_open [] 1 (Some (join_request ''1001'')) =
     Inr (two_rooms\<lparr>users := (users two_rooms)(1 \<mapsto> \<lparr>socket = 1, room = ''1001''\<rparr>),
                     rooms := (rooms two_rooms)(''1001'' \<mapsto> [2, 1])\<rparr>,
          [(1, envelope ''joined'' [(''room'', JStr ''1001'')]),
           (2, envelope ''user-count'' [(''count'', JNum 2), (''max'', JNum 2)]),
           (1, envelope ''user-count'' [(''count'', JNum 2), (''max'', JNum 2)])]) \<and>
   rooms (two_rooms\<lparr>users := (users two_rooms)(1 \<mapsto> \<lparr>socket = 1, room = ''1001''\<rparr>),
                    rooms := (rooms two_rooms)(''1001'' \<mapsto> [2, 1])\<rparr>) ''1000'' = Some [1]"
  using run_two_rooms
  by (simp add: handler_defs join_request_def two_rooms_def all_open_def)

subsection \<open>C3: the handler does not throw\<close>

text \<open>
  Claim C3 says that the message handler completes without throwing on every envelope.
  The \<^verbatim>\<open>typing\<close> branch reads \<^verbatim>\<open>message.payload.typing\<close> without the
  \<^verbatim>\<open>message.payload || {}\<close> of the other branches: a \<^verbatim>\<open>typing\<close> envelope without payload
  from a connection in a room throws a TypeError. So does the envelope \<^verbatim>\<open>null\<close>, at
  \<^verbatim>\<open>message.type\<close>.
\<close>

theorem typing_without_payload_throws:
  "run init_state [Message all_open [1000] 1 (Some create_request)] = Inr one_room \<and>
   on_message one_room all_open [] 1 (Some (JObj [(''type'', JStr ''typing'')])) = Inl TypeError \<and>
   on_message init_state all_open [] 1 (Some JNull) = Inl TypeError"
  using run_one_room
  by (simp add: on_message_def and_then_def room_event_def one_room_def)

subsection \<open>C2: the size of a room\<close>

text \<open>
  Claim C2. After every sequence of events, every room of the room table has at least 1 and
  at most 2 members (each listed once). In such a state, a room that is created has its
  creator as sole member and takes an identifier no room had; a join to a room of 2 members
  is rejected with "Room is full" and changes nothing; and the close of a registered
  connection leaves its room in the table exactly when members remain: the room is deleted
  in the step that empties it.
\<close>

theorem room_size_bounds:
  assumes "run init_state es = Inr st"
  shows "(\<forall>k members. rooms st k = Some members \<longrightarrow>
            distinct members \<and> 1 \<le> length members \<and> length members \<le> 2) \<and>
         (\<forall>ready draws ws st' out.
            users st ws = None \<and> create_room st ready draws ws = Inr (st', out) \<longrightarrow>
            (\<exists>k. rooms st k = None \<and> rooms st' = (rooms st)(k \<mapsto> [ws]))) \<and>
         (\<forall>ready ws k members.
            rooms st k = Some members \<and> length members = 2 \<longrightarrow>
            join_room st ready ws (JStr k) =
              (st, [(ws, envelope ''error'' [(''message'', JStr ''Room is full'')])])) \<and>
         (\<forall>ready ws user members.
            users st ws = Some user \<and> rooms st (room user) = Some members \<longrightarrow>
            rooms (fst (on_close st ready ws)) (room user) =
              (if set_delete ws members = [] then None else Some (set_delete ws members)))"
proof -
  have ok: "room_table_ok st" using room_table_ok_init assms by (rule room_table_ok_run)
  have size: "\<forall>k members. rooms st k = Some members \<longrightarrow>
                distinct members \<and> 1 \<le> length members \<and> length members \<le> 2"
    using room_table_ok_rooms[OF ok] by (simp add: MAX_USERS_PER_ROOM_def)
  have create: "\<forall>ready draws ws st' out.
            users st ws = None \<and> create_room st ready draws ws = Inr (st', out) \<longrightarrow>
            (\<exists>k. rooms st k = None \<and> rooms st' = (rooms st)(k \<mapsto> [ws]))"
    using create_room_new by blast
  have full: "\<forall>ready ws k members.
            rooms st k = Some members \<and> length members = 2 \<longrightarrow>
            join_room st ready ws (JStr k) =
              (st, [(ws, envelope ''error'' [(''message'', JStr ''Room is full'')])])"
  proof (intro allI impI)
    fix ready ws k members
    assume a: "rooms st k = Some members \<and> length members = 2"
    then have "rooms st k = Some members" by simp
    moreover from room_table_ok_rooms[OF ok this] have "k \<noteq> []" by simp
    moreover from a have "MAX_USERS_PER_ROOM \<le> length members" by (simp add: MAX_USERS_PER_ROOM_def)
    ultimately show "join_room st ready ws (JStr k) =
              (st, [(ws, envelope ''error'' [(''message'', JStr ''Room is full'')])])"
      by (rule join_room_full)
  qed
  have close: "\<forall>ready ws user members.
            users st ws = Some user \<and> rooms st (room user) = Some members \<longrightarrow>
            rooms (fst (on_close st ready ws)) (room user) =
              (if set_delete ws members = [] then None else Some (set_delete ws members))"
    using on_close_room by blast
  show ?thesis by (intro conjI size create full close)
qed

theorem room_size_bounds_witness:
  "run init_state [Message all_open [1000] 1 (Some create_request),
                   Message all_open [] 2 (Some (join_request ''1000''))] = Inr pair_room \<and>
   rooms pair_room ''1000'' = Some [1, 2] \<and>
   distinct [1::nat, 2] \<and> 1 \<le> length [1::nat, 2] \<and> length [1::nat, 2] \<le> 2 \<and>
   users pair_room 3 = None \<and>
   join_room pair_room all_open 3 (JStr ''1000'') =
     (pair_room, [(3, envelope ''error'' [(''message'', JStr ''Room is full'')])])"
  using room_size_bounds [OF run_pair_room] run_pair_room
  by (simp add: pair_room_def)

subsection \<open>C4: room identifiers\<close>

text \<open>
  Claim C4. An identifier returned by \<^verbatim>\<open>createUniqueRoomId\<close> is the identifier of no room
  open at that moment, and the loop returns as soon as one draw gives an identifier that is
  free. A \<^verbatim>\<open>create-room\<close> from a connection without a room stores the new room under that
  identifier and leaves every open room under its own identifier, unchanged: the
  identifiers of the open rooms, the keys of the table, stay distinct. An identifier can
  therefore be returned again only once no room holds it, that is after the room that held
  it was deleted.
\<close>

theorem room_id_fresh:
  "(\<forall>k. createUniqueRoomId (rooms st) draws = Some k \<longrightarrow> rooms st k = None) \<and>
   ((\<exists>d \<in> set draws. rooms st (generateRoomId d) = None) \<longrightarrow>
      (\<exists>k. createUniqueRoomId (rooms st) draws = Some k)) \<and>
   (\<forall>message st' out.
      get_prop message ''type'' = Inr (JStr ''create-room'') \<and> users st ws = None \<and>
      on_message st ready draws ws (Some message) = Inr (st', out) \<longrightarrow>
      (\<exists>k. rooms st k = None \<and>
           out = (ws, envelope ''room-created'' [(''room'', JStr k)])
                 # broadcastUserCount st' ready k \<and>
           rooms st' = (rooms st)(k \<mapsto> [ws]) \<and>
           (\<forall>k'. rooms st k' \<noteq> None \<longrightarrow> k' \<noteq> k \<and> rooms st' k' = rooms st k')))"
proof (intro conjI)
  show "\<forall>k. createUniqueRoomId (rooms st) draws = Some k \<longrightarrow> rooms st k = None"
    using createUniqueRoomId_fresh by blast
  show "(\<exists>d \<in> set draws. rooms st (generateRoomId d) = None) \<longrightarrow>
          (\<exists>k. createUniqueRoomId (rooms st) draws = Some k)"
    using createUniqueRoomId_returns by blast
  show "\<forall>message st' out.
      get_prop message ''type'' = Inr (JStr ''create-room'') \<and> users st ws = None \<and>
      on_message st ready draws ws (Some message) = Inr (st', out) \<longrightarrow>
      (\<exists>k. rooms st k = None \<and>
           out = (ws, envelope ''room-created'' [(''room'', JStr k)])
                 # broadcastUserCount st' ready k \<and>
           rooms st' = (rooms st)(k \<mapsto> [ws]) \<and>
           (\<forall>k'. rooms st k' \<noteq> None \<longrightarrow> k' \<noteq> k \<and> rooms st' k' = rooms st k'))"
  proof (intro allI impI)
    fix message st' out
    assume a: "get_prop message ''type'' = Inr (JStr ''create-room'') \<and> users st ws = None \<and>
      on_message st ready draws ws (Some message) = Inr (st', out)"
    then have t: "get_prop message ''type'' = Inr (JStr ''create-room'')"
      and u: "users st ws = None"
      and m: "on_message st ready draws ws (Some message) = Inr (st', out)" by simp_all
    from m t have "create_room st ready draws ws = Inr (st', out)"
      by (simp add: on_message_def and_then_def)
    with u obtain k where k: "rooms st k = None" "rooms st' = (rooms st)(k \<mapsto> [ws])"
      "out = (ws, envelope ''room-created'' [(''room'', JStr k)]) # broadcastUserCount st' ready k"
      using create_room_new by blast
    then have "\<forall>k'. rooms st k' \<noteq> None \<longrightarrow> k' \<noteq> k \<and> rooms st' k' = rooms st k'" by auto
    with k show "\<exists>k. rooms st k = None \<and>
           out = (ws, envelope ''room-created'' [(''room'', JStr k)])
                 # broadcastUserCount st' ready k \<and>
           rooms st' = (rooms st)(k \<mapsto> [ws]) \<and>
           (\<forall>k'. rooms st k' \<noteq> None \<longrightarrow> k' \<noteq> k \<and> rooms st' k' = rooms st k')"
      by (intro exI[of _ k]) simp
  qed
qed

theorem room_id_fresh_witness:
  "rooms one_room ''1000'' = Some [1] \<and> generateRoomId 1000 = ''1000'' \<and>
   generateRoomId 1001 = ''1001'' \<and> rooms one_room ''1001'' = None \<and>
   createUniqueRoomId (rooms one_room) [1000, 1001] = Some ''1001'' \<and>
   get_prop create_request ''type'' = Inr (JStr ''create-room'') \<and> users one_room 2 = None \<and>
   on_message one_room all_open [1000, 1001] 2 (Some create_request) =
     Inr (one_room\<lparr>users := (users one_room)(2 \<mapsto> \<lparr>socket = 2, room = ''1001''\<rparr>),
                    rooms := (rooms one_room)(''1001'' \<mapsto> [2])\<rparr>,
          [(2, envelope ''room-created'' [(''room'', JStr ''1001'')]),
           (2, envelope ''user-count'' [(''count'', JNum 1), (''max'', JNum 2)])])"
  using room_id_fresh [of one_room "[1000, 1001]" 2 all_open]
  by (simp add: handler_defs scenario_defs)

text \<open>
  An identifier does come back after its room is gone: connection 1 creates room 1000 and
  closes, and the same draw then gives room 1000 to connection 2.
\<close>

lemma room_id_reissued_after_delete:
  "run init_state [Message all_open [1000] 1 (Some create_request),
                   Close all_open 1] = Inr init_state \<and>
   on_message init_state all_open [1000] 2 (Some create_request) =
     Inr (init_state\<lparr>users := (users init_state)(2 \<mapsto> \<lparr>socket = 2, room = ''1000''\<rparr>),
                      rooms := (rooms init_state)(''1000'' \<mapsto> [2])\<rparr>,
          [(2, envelope ''room-created'' [(''room'', JStr ''1000'')]),
           (2, envelope ''user-count'' [(''count'', JNum 1), (''max'', JNum 2)])])"
  by (simp add: handler_defs scenario_defs)

subsection \<open>C5: the outcomes of a join request\<close>

text \<open>
  Claim C5. In every state a run can reach, a \<^verbatim>\<open>join-room\<close> request is answered, and
  \<^item> it is answered with the error "Room does not exist", sent to the sender only, if and
    only if no room with the requested id is open;
  \<^item> it is answered with the error "Room is full", sent to the sender only, if and only
    if the room is open and has 2 members already;
  \<^item> in both cases the registry and the room table stay as they were;
  \<^item> otherwise the room is open with fewer than 2 members, the sender is added to its
    member set and registered for it, and the first envelope sent is \<^verbatim>\<open>joined{room}\<close> to
    the sender, followed by the user count of the room.
\<close>

theorem join_room_outcomes:
  assumes "run init_state es = Inr st"
    and "get_prop message ''type'' = Inr (JStr ''join-room'')"
    and "get_prop message ''payload'' = Inr p"
    and "get_prop (or_empty p) ''room'' = Inr r"
  shows "\<exists>st' out.
           on_message st ready draws ws (Some message) = Inr (st', out) \<and>
           (out = [(ws, envelope ''error'' [(''message'', JStr ''Room does not exist'')])]
              \<longleftrightarrow> (\<forall>k. r = JStr k \<longrightarrow> rooms st k = None)) \<and>
           (out = [(ws, envelope ''error'' [(''message'', JStr ''Room is full'')])]
              \<longleftrightarrow> (\<exists>k members. r = JStr k \<and> rooms st k = Some members \<and> length members = 2)) \<and>
           (out = [(ws, envelope ''error'' [(''message'', JStr ''Room does not exist'')])] \<or>
            out = [(ws, envelope ''error'' [(''message'', JStr ''Room is full'')])]
              \<longrightarrow> st' = st) \<and>
           (out \<noteq> [(ws, envelope ''error'' [(''message'', JStr ''Room does not exist'')])] \<and>
            out \<noteq> [(ws, envelope ''error'' [(''message'', JStr ''Room is full'')])]
              \<longrightarrow> (\<exists>k members. r = JStr k \<and> rooms st k = Some members \<and> length members < 2 \<and>
                     users st' = (users st)(ws \<mapsto> \<lparr>socket = ws, room = k\<rparr>) \<and>
                     rooms st' = (rooms st)(k \<mapsto> set_add ws members) \<and>
                     ws \<in> set (set_add ws members) \<and>
                     out = (ws, envelope ''joined'' [(''room'', JStr k)])
                           # broadcastUserCount st' ready k))"
proof -
  let ?missing = "[(ws, envelope ''error'' [(''message'', JStr ''Room does not exist'')])]"
  let ?full = "[(ws, envelope ''error'' [(''message'', JStr ''Room is full'')])]"
  have ok: "room_table_ok st" using room_table_ok_init assms(1) by (rule room_table_ok_run)
  have run: "on_message st ready draws ws (Some message) = Inr (join_room st ready ws r)"
    using assms(2-4) by (rule join_dispatch)
  have diff: "?missing \<noteq> ?full" by (simp add: envelope_def)
  consider (absent) "\<forall>k. r = JStr k \<longrightarrow> rooms st k = None"
    | (present) k members where "r = JStr k" "rooms st k = Some members"
    by (cases r) auto
  then obtain st' out where res: "on_message st ready draws ws (Some message) = Inr (st', out)"
    and c1: "out = ?missing \<longleftrightarrow> (\<forall>k. r = JStr k \<longrightarrow> rooms st k = None)"
    and c2: "out = ?full \<longleftrightarrow>
               (\<exists>k members. r = JStr k \<and> rooms st k = Some members \<and> length members = 2)"
    and c3: "out = ?missing \<or> out = ?full \<longrightarrow> st' = st"
    and c4: "out \<noteq> ?missing \<and> out \<noteq> ?full \<longrightarrow>
               (\<exists>k members. r = JStr k \<and> rooms st k = Some members \<and> length members < 2 \<and>
                  users st' = (users st)(ws \<mapsto> \<lparr>socket = ws, room = k\<rparr>) \<and>
                  rooms st' = (rooms st)(k \<mapsto> set_add ws members) \<and>
                  ws \<in> set (set_add ws members) \<and>
                  out = (ws, envelope ''joined'' [(''room'', JStr k)])
                        # broadcastUserCount st' ready k)"
  proof cases
    case absent
    from absent have "join_room st ready ws r = (st, ?missing)" by (rule join_room_missing)
    with run have r: "on_message st ready draws ws (Some message) = Inr (st, ?missing)" by simp
    from absent have nofull:
      "\<not> (\<exists>k members. r = JStr k \<and> rooms st k = Some members \<and> length members = 2)"
      by auto
    show ?thesis
    proof (rule that[OF r])
      show "?missing = ?missing \<longleftrightarrow> (\<forall>k. r = JStr k \<longrightarrow> rooms st k = None)"
        using absent by simp
      show "?missing = ?full \<longleftrightarrow>
              (\<exists>k members. r = JStr k \<and> rooms st k = Some members \<and> length members = 2)"
        using nofull diff by simp
      show "?missing = ?missing \<or> ?missing = ?full \<longrightarrow> st = st" by simp
      show "?missing \<noteq> ?missing \<and> ?missing \<noteq> ?full \<longrightarrow>
               (\<exists>k members. r = JStr k \<and> rooms st k = Some members \<and> length members < 2 \<and>
                  users st = (users st)(ws \<mapsto> \<lparr>socket = ws, room = k\<rparr>) \<and>
                  rooms st = (rooms st)(k \<mapsto> set_add ws members) \<and>
                  ws \<in> set (set_add ws members) \<and>
                  ?missing = (ws, envelope ''joined'' [(''room'', JStr k)])
                        # broadcastUserCount st ready k)" by simp
    qed
  next
    case present
    from room_table_ok_rooms[OF ok present(2)]
    have k: "k \<noteq> []" and len: "length members \<le> MAX_USERS_PER_ROOM" by simp_all
    from present have here: "\<not> (\<forall>k. r = JStr k \<longrightarrow> rooms st k = None)" by simp
    show ?thesis
    proof (cases "length members = 2")
      case True
      then have "MAX_USERS_PER_ROOM \<le> length members" by (simp add: MAX_USERS_PER_ROOM_def)
      with present(2) k have "join_room st ready ws (JStr k) = (st, ?full)" by (rule join_room_full)
      with run present(1) have r: "on_message st ready draws ws (Some message) = Inr (st, ?full)"
        by simp
      have isfull: "\<exists>k members. r = JStr k \<and> rooms st k = Some members \<and> length members = 2"
        using present True by blast
      show ?thesis
      proof (rule that[OF r])
        show "?full = ?missing \<longleftrightarrow> (\<forall>k. r = JStr k \<longrightarrow> rooms st k = None)"
          using here diff by simp
        show "?full = ?full \<longleftrightarrow>
                (\<exists>k members. r = JStr k \<and> rooms st k = Some members \<and> length members = 2)"
          using isfull by simp
        show "?full = ?missing \<or> ?full = ?full \<longrightarrow> st = st" by simp
        show "?full \<noteq> ?missing \<and> ?full \<noteq> ?full \<longrightarrow>
               (\<exists>k members. r = JStr k \<and> rooms st k = Some members \<and> length members < 2 \<and>
                  users st = (users st)(ws \<mapsto> \<lparr>socket = ws, room = k\<rparr>) \<and>
                  rooms st = (rooms st)(k \<mapsto> set_add ws members) \<and>
                  ws \<in> set (set_add ws members) \<and>
                  ?full = (ws, envelope ''joined'' [(''room'', JStr k)])
                        # broadcastUserCount st ready k)" by simp
      qed
    next
      case False
      with len have lt: "length members < MAX_USERS_PER_ROOM" and lt2: "length members < 2"
        by (simp_all add: MAX_USERS_PER_ROOM_def)
      let ?st' = "st\<lparr>users := (users st)(ws \<mapsto> \<lparr>socket = ws, room = k\<rparr>),
                      rooms := (rooms st)(k \<mapsto> set_add ws members)\<rparr>"
      let ?out = "(ws, envelope ''joined'' [(''room'', JStr k)]) # broadcastUserCount ?st' ready k"
      from present(2) k lt have "join_room st ready ws (JStr k) = (?st', ?out)"
        by (rule join_room_joins)
      with run present(1) have r: "on_message st ready draws ws (Some message) = Inr (?st', ?out)"
        by simp
      have o1: "?out \<noteq> ?missing" and o2: "?out \<noteq> ?full" by (simp_all add: envelope_def)
      have nofull: "\<not> (\<exists>k members. r = JStr k \<and> rooms st k = Some members \<and> length members = 2)"
        using present False by auto
      have joined: "\<exists>k members. r = JStr k \<and> rooms st k = Some members \<and> length members < 2 \<and>
                     users ?st' = (users st)(ws \<mapsto> \<lparr>socket = ws, room = k\<rparr>) \<and>
                     rooms ?st' = (rooms st)(k \<mapsto> set_add ws members) \<and>
                     ws \<in> set (set_add ws members) \<and>
                     ?out = (ws, envelope ''joined'' [(''room'', JStr k)])
                           # broadcastUserCount ?st' ready k"
        using present lt2 by (intro exI[of _ k] exI[of _ members]) (simp add: set_add_props(2))
      show ?thesis
      proof (rule that[OF r])
        show "?out = ?missing \<longleftrightarrow> (\<forall>k. r = JStr k \<longrightarrow> rooms st k = None)"
          using o1 here by blast
        show "?out = ?full \<longleftrightarrow>
                (\<exists>k members. r = JStr k \<and> rooms st k = Some members \<and> length members = 2)"
          using o2 nofull by blast
        show "?out = ?missing \<or> ?out = ?full \<longrightarrow> ?st' = st" using o1 o2 by blast
        show "?out \<noteq> ?missing \<and> ?out \<noteq> ?full \<longrightarrow>
               (\<exists>k members. r = JStr k \<and> rooms st k = Some members \<and> length members < 2 \<and>
                  users ?st' = (users st)(ws \<mapsto> \<lparr>socket = ws, room = k\<rparr>) \<and>
                  rooms ?st' = (rooms st)(k \<mapsto> set_add ws members) \<and>
                  ws \<in> set (set_add ws members) \<and>
                  ?out = (ws, envelope ''joined'' [(''room'', JStr k)])
                        # broadcastUserCount ?st' ready k)"
          using joined by (rule impI)
      qed
    qed
  qed
  show ?thesis
    by (rule exI[of _ st'], rule exI[of _ out]) (intro conjI res c1 c2 c3 c4)
qed

theorem join_room_outcomes_witness:
  "run init_state [Message all_open [1000] 1 (Some create_request),
                   Message all_open [] 2 (Some (join_request ''1000''))] = Inr pair_room \<and>
   get_prop (join_request ''1000'') ''type'' = Inr (JStr ''join-room'') \<and>
   get_prop (join_request ''1000'') ''payload'' = Inr (JObj [(''room'', JStr ''1000'')]) \<and>
   get_prop (or_empty (JObj [(''room'', JStr ''1000'')])) ''room'' = Inr (JStr ''1000'') \<and>
   rooms pair_room ''1000'' = Some [1, 2] \<and>
   on_message pair_room all_open [] 3 (Some (join_request ''1000'')) =
     Inr (pair_room, [(3, envelope ''error'' [(''message'', JStr ''Room is full'')])])"
  using join_room_outcomes [OF run_pair_room, of "join_request ''1000''"
      "JObj [(''room'', JStr ''1000'')]" "JStr ''1000''" all_open "[]" 3]
    run_pair_room
  by (simp add: handler_defs join_request_def pair_room_def)

subsection \<open>C6: relaying a message\<close>

text \<open>
  Claim C6. In every state a run can reach, a \<^verbatim>\<open>message\<close> event with truthy \<^verbatim>\<open>id\<close> and
  \<^verbatim>\<open>text\<close> (for strings: non-empty) from a connection the registry assigns to room R
  finds R in the room table with the sender among its members, and sends
  \<^verbatim>\<open>message{id, message: text}\<close> to exactly the members of R that are open and are not
  the sender, so to no connection outside R and never to the sender, followed by exactly
  one \<^verbatim>\<open>delivered{id}\<close>, to the sender. The state does not change.
\<close>

theorem message_relay:
  assumes "run init_state es = Inr st"
    and "users st ws = Some user"
    and "get_prop message ''type'' = Inr (JStr ''message'')"
    and "get_prop message ''payload'' = Inr p"
    and "get_prop (or_empty p) ''id'' = Inr i"
    and "get_prop (or_empty p) ''text'' = Inr t"
    and "truthy i" and "truthy t"
  shows "\<exists>members out.
           rooms st (room user) = Some members \<and> ws \<in> set members \<and>
           on_message st ready draws ws (Some message) = Inr (st, out) \<and>
           out = map (\<lambda>client. (client, envelope ''message'' [(''id'', i), (''message'', t)]))
                     (filter (\<lambda>client. client \<noteq> ws \<and> ready client = OPEN) members)
                 @ [(ws, envelope ''delivered'' [(''id'', i)])] \<and>
           (\<forall>client. (client, envelope ''message'' [(''id'', i), (''message'', t)]) \<in> set out
              \<longleftrightarrow> client \<in> set members \<and> client \<noteq> ws \<and> ready client = OPEN) \<and>
           filter (\<lambda>s. snd s = envelope ''delivered'' [(''id'', i)]) out
             = [(ws, envelope ''delivered'' [(''id'', i)])]"
proof -
  have "room_table_ok st" using room_table_ok_init assms(1) by (rule room_table_ok_run)
  then obtain members where m: "rooms st (room user) = Some members" "ws \<in> set members"
    using assms(2) room_table_ok_users by blast
  let ?chat = "envelope ''message'' [(''id'', i), (''message'', t)]"
  let ?ack = "envelope ''delivered'' [(''id'', i)]"
  let ?out = "map (\<lambda>client. (client, ?chat))
                  (filter (\<lambda>client. client \<noteq> ws \<and> ready client = OPEN) members) @ [(ws, ?ack)]"
  have ev: "room_event ready ws members (JStr ''message'') message = Inr ?out"
    using assms(4-8) by (simp add: room_event_def and_then_def)
  have run: "on_message st ready draws ws (Some message) = Inr (st, ?out)"
    using room_scoped_dispatch[OF assms(2) m(1) assms(3), of ready draws] ev
    by (simp add: and_then_def)
  have ne: "?chat \<noteq> ?ack" by (simp add: envelope_def)
  have to: "\<forall>client. (client, ?chat) \<in> set ?out
              \<longleftrightarrow> client \<in> set members \<and> client \<noteq> ws \<and> ready client = OPEN"
    using ne by auto
  have ack: "filter (\<lambda>s. snd s = ?ack) ?out = [(ws, ?ack)]"
    using ne by (simp add: filter_map o_def)
  from m run to ack show ?thesis by blast
qed

theorem message_relay_witness:
  "run init_state [Message all_open [1000] 1 (Some create_request),
                   Message all_open [] 2 (Some (join_request ''1000''))] = Inr pair_room \<and>
   users pair_room 1 = Some \<lparr>socket = 1, room = ''1000''\<rparr> \<and>
   truthy (JStr ''m1'') \<and> truthy (JStr ''hi'') \<and>
   on_message pair_room all_open [] 1
     (Some (envelope ''message'' [(''id'', JStr ''m1''), (''text'', JStr ''hi'')])) =
     Inr (pair_room, [(2, envelope ''message'' [(''id'', JStr ''m1''), (''message'', JStr ''hi'')]),
                      (1, envelope ''delivered'' [(''id'', JStr ''m1'')])])"
  using message_relay [OF run_pair_room, of 1 "\<lparr>socket = 1, room = ''1000''\<rparr>"
      "envelope ''message'' [(''id'', JStr ''m1''), (''text'', JStr ''hi'')]"
      "JObj [(''id'', JStr ''m1''), (''text'', JStr ''hi'')]" "JStr ''m1''" "JStr ''hi''"
      all_open "[]"]
    run_pair_room
  by (simp add: or_empty_def envelope_def pair_room_def all_open_def)

subsection \<open>C7: relaying a read receipt\<close>

text \<open>
  Claim C7 as written asks only that an \<^verbatim>\<open>id\<close> be present. The handler returns at
  \<^verbatim>\<open>if (!id) return\<close>: with the \<^verbatim>\<open>id\<close> present and empty, the open member of the room
  (the sender) is sent nothing.
\<close>

theorem seen_with_empty_id_dropped:
  "run init_state [Message all_open [1000] 1 (Some create_request)] = Inr one_room \<and>
   users one_room 1 = Some \<lparr>socket = 1, room = ''1000''\<rparr> \<and>
   rooms one_room ''1000'' = Some [1] \<and> all_open 1 = OPEN \<and>
   get_prop (envelope ''seen'' [(''id'', JStr '''')]) ''type'' = Inr (JStr ''seen'') \<and>
   get_prop (JObj [(''id'', JStr '''')]) ''id'' = Inr (JStr '''') \<and>
   on_message one_room all_open [] 1 (Some (envelope ''seen'' [(''id'', JStr '''')])) =
     Inr (one_room, [])"
  using run_one_room
  by (simp add: handler_defs one_room_def all_open_def)

text \<open>
  Claim C7, amended. In every state a run can reach, a \<^verbatim>\<open>seen\<close> event from a connection
  the registry assigns to room R finds R in the room table with the sender among its
  members, and leaves the state as it was. With a truthy \<^verbatim>\<open>id\<close> (for strings: non-empty)
  it sends \<^verbatim>\<open>seen{id}\<close> to exactly the open members of R, the sender among them when it
  is open, and to no connection outside R. With an \<^verbatim>\<open>id\<close> that is present but falsy
  (such as the empty string), or absent, it sends nothing.
\<close>

theorem seen_relay:
  assumes "run init_state es = Inr st"
    and "users st ws = Some user"
    and "get_prop message ''type'' = Inr (JStr ''seen'')"
    and "get_prop message ''payload'' = Inr p"
    and "get_prop (or_empty p) ''id'' = Inr i"
  shows "\<exists>members out.
           rooms st (room user) = Some members \<and> ws \<in> set members \<and>
           on_message st ready draws ws (Some message) = Inr (st, out) \<and>
           (truthy i \<longrightarrow>
              out = map (\<lambda>client. (client, envelope ''seen'' [(''id'', i)]))
                        (filter (\<lambda>client. ready client = OPEN) members) \<and>
              (\<forall>client. (client, envelope ''seen'' [(''id'', i)]) \<in> set out
                 \<longleftrightarrow> client \<in> set members \<and> ready client = OPEN) \<and>
              (ready ws = OPEN \<longrightarrow> (ws, envelope ''seen'' [(''id'', i)]) \<in> set out)) \<and>
           (\<not> truthy i \<longrightarrow> out = [])"
proof -
  have "room_table_ok st" using room_table_ok_init assms(1) by (rule room_table_ok_run)
  then obtain members where m: "rooms st (room user) = Some members" "ws \<in> set members"
    using assms(2) room_table_ok_users by blast
  let ?seen = "envelope ''seen'' [(''id'', i)]"
  let ?all = "map (\<lambda>client. (client, ?seen)) (filter (\<lambda>client. ready client = OPEN) members)"
  let ?out = "if truthy i then ?all else []"
  have ev: "room_event ready ws members (JStr ''seen'') message = Inr ?out"
    using assms(4,5) by (simp add: room_event_def and_then_def)
  have run: "on_message st ready draws ws (Some message) = Inr (st, ?out)"
    using room_scoped_dispatch[OF assms(2) m(1) assms(3), of ready draws] ev
    by (simp add: and_then_def)
  have to: "\<forall>client. (client, ?seen) \<in> set ?all \<longleftrightarrow> client \<in> set members \<and> ready client = OPEN"
    by auto
  from to m(2) have self: "ready ws = OPEN \<longrightarrow> (ws, ?seen) \<in> set ?all" by blast
  have sent: "truthy i \<longrightarrow>
              ?out = ?all \<and>
              (\<forall>client. (client, ?seen) \<in> set ?out
                 \<longleftrightarrow> client \<in> set members \<and> ready client = OPEN) \<and>
              (ready ws = OPEN \<longrightarrow> (ws, ?seen) \<in> set ?out)"
    using to self by simp
  have dropped: "\<not> truthy i \<longrightarrow> ?out = []" by simp
  show ?thesis
    by (rule exI[of _ members], rule exI[of _ ?out]) (intro conjI m run sent dropped)
qed

theorem seen_relay_witness:
  "run init_state [Message all_open [1000] 1 (Some create_request),
                   Message all_open [] 2 (Some (join_request ''1000''))] = Inr pair_room \<and>
   users pair_room 1 = Some \<lparr>socket = 1, room = ''1000''\<rparr> \<and>
   truthy (JStr ''m1'') \<and>
   on_message pair_room all_open [] 1 (Some (envelope ''seen'' [(''id'', JStr ''m1'')])) =
     Inr (pair_room, [(1, envelope ''seen'' [(''id'', JStr ''m1'')]),
                      (2, envelope ''seen'' [(''id'', JStr ''m1'')])]) \<and>
   \<not> truthy (JNum 0) \<and>
   on_message pair_room all_open [] 2 (Some (envelope ''seen'' [(''id'', JNum 0)])) =
     Inr (pair_room, [])"
  using seen_relay [OF run_pair_room, of 1 "\<lparr>socket = 1, room = ''1000''\<rparr>"
      "envelope ''seen'' [(''id'', JStr ''m1'')]" "JObj [(''id'', JStr ''m1'')]" "JStr ''m1''"
      all_open "[]"]
    seen_relay [OF run_pair_room, of 2 "\<lparr>socket = 2, room = ''1000''\<rparr>"
      "envelope ''seen'' [(''id'', JNum 0)]" "JObj [(''id'', JNum 0)]" "JNum 0"
      all_open "[]"]
    run_pair_room
  by (simp add: or_empty_def envelope_def pair_room_def all_open_def)

subsection \<open>C8: socket close\<close>

text \<open>
  Claim C8 as written sends the updated count to each remaining member. The broadcast
  tests \<^verbatim>\<open>client.readyState === WebSocket.OPEN\<close>: when connection 2 closes while
  connection 1 of the same room is closing, the room persists with member 1 and nothing
  is sent.
\<close>

theorem close_skips_closing_member:
  "run init_state [Message all_open [1000] 1 (Some create_request),
                   Message all_open [] 2 (Some (join_request ''1000''))] = Inr pair_room \<and>
   users pair_room 2 = Some \<lparr>socket = 2, room = ''1000''\<rparr> \<and>
   rooms pair_room ''1000'' = Some [1, 2] \<and>
   first_closing 1 = CLOSING \<and>
   rooms (fst (on_close pair_room first_closing 2)) ''1000'' = Some [1] \<and>
   snd (on_close pair_room first_closing 2) = []"
  using run_pair_room
  by (simp add: handler_defs pair_room_def first_closing_def all_open_def)

text \<open>
  Claim C8, amended. In every state a run can reach, the close of a connection with a
  registry entry removes it from the member set of its registered room. If the set is then
  non-empty the room persists with the remaining members and
  \<^verbatim>\<open>user-count{count, max}\<close>, with the new count, is sent to each remaining member whose
  socket is open; if the set is empty the room is deleted and nothing is sent. No other
  room changes. The registry entry is removed in every case and no other entry changes.
  The close of a connection with no registry entry changes no room and sends nothing.
\<close>

theorem close_leaves_room:
  assumes "run init_state es = Inr st"
    and "on_close st ready ws = (st', out)"
  shows "users st' ws = None \<and> (\<forall>c. c \<noteq> ws \<longrightarrow> users st' c = users st c) \<and>
         (users st ws = None \<longrightarrow> rooms st' = rooms st \<and> out = []) \<and>
         (\<forall>user. users st ws = Some user \<longrightarrow>
            (\<exists>members. rooms st (room user) = Some members \<and> ws \<in> set members \<and>
               ws \<notin> set (set_delete ws members) \<and>
               (\<forall>k. k \<noteq> room user \<longrightarrow> rooms st' k = rooms st k) \<and>
               (set_delete ws members \<noteq> [] \<longrightarrow>
                  rooms st' (room user) = Some (set_delete ws members) \<and>
                  out = map (\<lambda>client. (client, envelope ''user-count''
                               [(''count'', JNum (of_nat (length (set_delete ws members)))),
                                (''max'', JNum (of_nat MAX_USERS_PER_ROOM))]))
                            (filter (\<lambda>client. ready client = OPEN) (set_delete ws members))) \<and>
               (set_delete ws members = [] \<longrightarrow> rooms st' (room user) = None \<and> out = [])))"
proof (cases "users st ws")
  case None
  with assms(2) show ?thesis by (auto simp: on_close_def)
next
  case (Some u)
  have "room_table_ok st" using room_table_ok_init assms(1) by (rule room_table_ok_run)
  then obtain members where m: "rooms st (room u) = Some members" "ws \<in> set members"
    using Some room_table_ok_users by blast
  have gone: "ws \<notin> set (set_delete ws members)" by (simp add: set_delete_def)
  show ?thesis
  proof (cases "set_delete ws members = []")
    case True
    with assms(2) Some m have "st' = st\<lparr>rooms := (rooms st)(room u := None),
                                         users := (users st)(ws := None)\<rparr>" and "out = []"
      by (auto simp: on_close_def Let_def)
    with Some m True gone show ?thesis by simp
  next
    case False
    with assms(2) Some m
    have "st' = st\<lparr>rooms := (rooms st)(room u \<mapsto> set_delete ws members),
                    users := (users st)(ws := None)\<rparr>"
      and "out = broadcastUserCount (st\<lparr>rooms := (rooms st)(room u \<mapsto> set_delete ws members)\<rparr>)
                   ready (room u)"
      by (auto simp: on_close_def Let_def)
    with Some m False gone show ?thesis by (simp add: broadcastUserCount_def)
  qed
qed

theorem close_leaves_room_witness:
  "run init_state [Message all_open [1000] 1 (Some create_request),
                   Message all_open [] 2 (Some (join_request ''1000''))] = Inr pair_room \<and>
   users pair_room 2 = Some \<lparr>socket = 2, room = ''1000''\<rparr> \<and>
   rooms pair_room ''1000'' = Some [1, 2] \<and>
   snd (on_close pair_room all_open 2) =
     [(1, envelope ''user-count'' [(''count'', JNum 1), (''max'', JNum 2)])] \<and>
   rooms (fst (on_close pair_room all_open 2)) ''1000'' = Some [1] \<and>
   users (fst (on_close pair_room all_open 2)) 2 = None"
  using close_leaves_room [OF run_pair_room, of all_open 2 "fst (on_close pair_room all_open 2)"
      "snd (on_close pair_room all_open 2)"]
    run_pair_room
  by (simp add: pair_room_def all_open_def set_delete_def MAX_USERS_PER_ROOM_def)

subsection \<open>C9: a join request that names no room\<close>

text \<open>
  Claim C9. A \<^verbatim>\<open>join-room\<close> envelope whose payload is absent, or whose \<^verbatim>\<open>room\<close> field
  is missing or the empty string, is answered with one envelope, the error
  "Room does not exist", sent to the sender and to nobody else; the registry and the room
  table stay as they were. This holds in every state.
\<close>

theorem join_without_room_rejected:
  assumes "get_prop message ''type'' = Inr (JStr ''join-room'')"
    and "get_prop message ''payload'' = Inr p"
    and "get_prop (or_empty p) ''room'' = Inr r"
    and "p = JUndefined \<or> r = JUndefined \<or> r = JStr ''''"
  shows "on_message st ready draws ws (Some message) =
           Inr (st, [(ws, envelope ''error'' [(''message'', JStr ''Room does not exist'')])])"
proof -
  from assms(3,4) have "\<not> truthy r" by (auto simp: or_empty_def)
  with assms(1-3) show ?thesis by (simp add: on_message_def and_then_def join_room_def)
qed

theorem join_without_room_rejected_witness:
  "get_prop (JObj [(''type'', JStr ''join-room'')]) ''type'' = Inr (JStr ''join-room'') \<and>
   get_prop (JObj [(''type'', JStr ''join-room'')]) ''payload'' = Inr JUndefined \<and>
   get_prop (or_empty JUndefined) ''room'' = Inr JUndefined \<and>
   on_message one_room all_open [] 2 (Some (JObj [(''type'', JStr ''join-room'')])) =
     Inr (one_room, [(2, envelope ''error'' [(''message'', JStr ''Room does not exist'')])])"
  using join_without_room_rejected [of "JObj [(''type'', JStr ''join-room'')]" JUndefined JUndefined
      one_room all_open "[]" 2]
  by (simp add: or_empty_def)

subsection \<open>C10: a message without id or text\<close>

text \<open>
  Claim C10. A \<^verbatim>\<open>message\<close> event whose payload is absent, or whose \<^verbatim>\<open>id\<close> or \<^verbatim>\<open>text\<close>
  is missing or the empty string, sends nothing at all (no broadcast, no \<^verbatim>\<open>delivered\<close>,
  no error) and leaves the state as it was. This holds for every sender, so in particular
  for one that is assigned to a room.
\<close>

theorem message_without_id_or_text_dropped:
  assumes "get_prop message ''type'' = Inr (JStr ''message'')"
    and "get_prop message ''payload'' = Inr p"
    and "get_prop (or_empty p) ''id'' = Inr i"
    and "get_prop (or_empty p) ''text'' = Inr t"
    and "p = JUndefined \<or> i = JUndefined \<or> i = JStr '''' \<or> t = JUndefined \<or> t = JStr ''''"
  shows "on_message st ready draws ws (Some message) = Inr (st, [])"
proof -
  from assms(3-5) have "\<not> truthy i \<or> \<not> truthy t" by (auto simp: or_empty_def)
  with assms(1-4) show ?thesis
    by (simp add: on_message_def and_then_def room_event_def split: option.splits)
qed

theorem message_without_id_or_text_dropped_witness:
  "get_prop (envelope ''message'' [(''id'', JStr ''m1''), (''text'', JStr '''')]) ''type'' = Inr (JStr ''message'') \<and>
   get_prop (envelope ''message'' [(''id'', JStr ''m1''), (''text'', JStr '''')]) ''payload'' =
     Inr (JObj [(''id'', JStr ''m1''), (''text'', JStr '''')]) \<and>
   get_prop (or_empty (JObj [(''id'', JStr ''m1''), (''text'', JStr '''')])) ''id'' = Inr (JStr ''m1'') \<and>
   get_prop (or_empty (JObj [(''id'', JStr ''m1''), (''text'', JStr '''')])) ''text'' = Inr (JStr '''') \<and>
   users pair_room 1 = Some \<lparr>socket = 1, room = ''1000''\<rparr> \<and>
   on_message pair_room all_open [] 1
     (Some (envelope ''message'' [(''id'', JStr ''m1''), (''text'', JStr '''')])) = Inr (pair_room, [])"
  using message_without_id_or_text_dropped
      [of "envelope ''message'' [(''id'', JStr ''m1''), (''text'', JStr '''')]"
          "JObj [(''id'', JStr ''m1''), (''text'', JStr '''')]" "JStr ''m1''" "JStr ''''"
          pair_room all_open "[]" 1]
  by (simp add: or_empty_def envelope_def pair_room_def)

end
